theory Spec2Isabelle
  imports Complex_Main "HOL-Library.Sublist"
begin

section \<open>Python strings and numbers\<close>

text \<open>
  The program is \<^verbatim>\<open>main.py\<close>. A Python \<^verbatim>\<open>str\<close> is modelled as a \<^typ>\<open>string\<close> whose
  characters are the code points 0..255; a Python \<^verbatim>\<open>int\<close> is an unbounded \<^typ>\<open>int\<close>.
  The built-ins the program calls (\<^verbatim>\<open>str.strip\<close>, \<^verbatim>\<open>str.split\<close>, \<^verbatim>\<open>int\<close>, the format
  specification \<^verbatim>\<open>02d\<close>) are modelled as CPython 3 implements them on such strings. The
  interpreter's configurable limit on the number of digits of an int/str conversion
  (\<^verbatim>\<open>sys.set_int_max_str_digits\<close>) is not modelled: conversions are unlimited.
\<close>

subsection \<open>\<^verbatim>\<open>str.strip()\<close> and \<^verbatim>\<open>str.split(sep)\<close>\<close>

definition isspace :: "char \<Rightarrow> bool" where
  \<comment> \<open>\<^verbatim>\<open>str.isspace\<close> on one character below 256: TAB, LF, VT, FF, CR, FS, GS, RS, US,
      space, NEL, NBSP.\<close>
  "isspace c = ((of_char c :: nat) \<in> {9, 10, 11, 12, 13, 28, 29, 30, 31, 32, 133, 160})"

definition strip :: "string \<Rightarrow> string" where
  \<comment> \<open>\<^verbatim>\<open>s.strip()\<close>: whitespace removed at both ends.\<close>
  "strip s = rev (dropWhile isspace (rev (dropWhile isspace s)))"

fun split_from :: "char \<Rightarrow> string \<Rightarrow> string \<Rightarrow> string list" where
  "split_from sep cur [] = [cur]"
| "split_from sep cur (c # cs) =
     (if c = sep then cur # split_from sep [] cs else split_from sep (cur @ [c]) cs)"

definition str_split :: "char \<Rightarrow> string \<Rightarrow> string list" where
  \<comment> \<open>\<^verbatim>\<open>s.split(sep)\<close> for a separator of one character: never an empty list, empty
      fields kept.\<close>
  "str_split sep s = split_from sep [] s"

subsection \<open>\<^verbatim>\<open>int(str)\<close>\<close>

definition int_space :: "char \<Rightarrow> bool" where
  \<comment> \<open>The whitespace \<^verbatim>\<open>int()\<close> skips around a literal: TAB, LF, VT, FF, CR, space, and
      the non-ASCII spaces NEL and NBSP (the separators FS..US are not skipped).\<close>
  "int_space c = ((of_char c :: nat) \<in> {9, 10, 11, 12, 13, 32, 133, 160})"

definition is_digit :: "char \<Rightarrow> bool" where
  "is_digit c = (48 \<le> (of_char c :: nat) \<and> (of_char c :: nat) \<le> 57)"

definition digit_val :: "char \<Rightarrow> nat" where
  "digit_val c = of_char c - 48"

fun digits_value :: "nat \<Rightarrow> string \<Rightarrow> nat option" where
  \<comment> \<open>The rest of a decimal literal after a digit: digits, each optionally preceded by
      one underscore; anything else is a \<^verbatim>\<open>ValueError\<close>.\<close>
  "digits_value acc [] = Some acc"
| "digits_value acc (c # cs) =
     (if is_digit c then digits_value (acc * 10 + digit_val c) cs
      else if c = CHR ''_'' then
        (case cs of
           [] \<Rightarrow> None
         | d # ds \<Rightarrow> if is_digit d then digits_value (acc * 10 + digit_val d) ds else None)
      else None)"

definition unsigned :: "string \<Rightarrow> nat option" where
  \<comment> \<open>A decimal literal without sign: it starts with a digit.\<close>
  "unsigned s =
     (case s of
        [] \<Rightarrow> None
      | c # cs \<Rightarrow> if is_digit c then digits_value (digit_val c) cs else None)"

definition int_strip :: "string \<Rightarrow> string" where
  "int_strip s = rev (dropWhile int_space (rev (dropWhile int_space s)))"

definition py_int :: "string \<Rightarrow> int option" where
  \<comment> \<open>\<^verbatim>\<open>int(s)\<close>: \<open>None\<close> is the \<^verbatim>\<open>ValueError\<close>.\<close>
  "py_int s =
     (case int_strip s of
        [] \<Rightarrow> None
      | c # cs \<Rightarrow>
          if c = CHR ''-'' then map_option (\<lambda>n. - int n) (unsigned cs)
          else if c = CHR ''+'' then map_option int (unsigned cs)
          else map_option int (unsigned (c # cs)))"

subsection \<open>\<^verbatim>\<open>str(int)\<close> and the format \<^verbatim>\<open>{:02d}\<close>\<close>

definition digit_char :: "nat \<Rightarrow> char" where
  "digit_char d = char_of (48 + d)"

fun str_nat :: "nat \<Rightarrow> string" where
  "str_nat n = (if n < 10 then [digit_char n] else str_nat (n div 10) @ [digit_char (n mod 10)])"

declare str_nat.simps [simp del]

definition format_02d :: "int \<Rightarrow> string" where
  \<comment> \<open>\<^verbatim>\<open>f"{v:02d}"\<close>: decimal, padded with zeros to a width of at least 2; the sign of a
      negative number counts in the width.\<close>
  "format_02d v =
     (if v < 0 then CHR ''-'' # str_nat (nat (- v))
      else if v < 10 then CHR ''0'' # str_nat (nat v)
      else str_nat (nat v))"

subsection \<open>Numbers\<close>

text \<open>
  The video duration is a Python number: the float \<^verbatim>\<open>clip.duration\<close>, or the int \<^verbatim>\<open>0\<close>
  that \<^verbatim>\<open>get_video_duration\<close> returns when the probe fails. A finite float is represented
  by its exact rational value; \<^verbatim>\<open>//\<close> and \<^verbatim>\<open>%\<close> on floats are modelled without rounding
  (they are exact for \<open>0 \<le> x < 2^53\<close>), and \<^verbatim>\<open>nan\<close> and \<^verbatim>\<open>inf\<close> are not modelled. Python
  compares an int with a float by their exact values.
\<close>

datatype number = PyInt int | PyFloat rat

fun value_of :: "number \<Rightarrow> rat" where
  "value_of (PyInt n) = of_int n"
| "value_of (PyFloat x) = x"

definition truncate :: "rat \<Rightarrow> int" where
  \<comment> \<open>\<^verbatim>\<open>int(x)\<close> on a float: rounding towards zero.\<close>
  "truncate x = (if x < 0 then \<lceil>x\<rceil> else \<lfloor>x\<rfloor>)"

fun int_floordiv60 :: "number \<Rightarrow> int" where
  \<comment> \<open>\<^verbatim>\<open>int(seconds // 60)\<close>\<close>
  "int_floordiv60 (PyInt n) = n div 60"
| "int_floordiv60 (PyFloat x) = truncate (of_int \<lfloor>x / 60\<rfloor>)"

fun int_mod60 :: "number \<Rightarrow> int" where
  \<comment> \<open>\<^verbatim>\<open>int(seconds % 60)\<close>\<close>
  "int_mod60 (PyInt n) = n mod 60"
| "int_mod60 (PyFloat x) = truncate (x - 60 * of_int \<lfloor>x / 60\<rfloor>)"

section \<open>The time converter\<close>

definition time_to_seconds :: "string \<Rightarrow> int option" where
  \<comment> \<open>\<^verbatim>\<open>time_to_seconds\<close>: \<open>None\<close> is Python's \<^verbatim>\<open>None\<close>, returned after a caught
      exception and also, by falling off the end, for a component count other than 2
      or 3.\<close>
  "time_to_seconds timestamp =
     (case those (map py_int (str_split CHR '':'' timestamp)) of
        None \<Rightarrow> None
      | Some parts \<Rightarrow>
          (case parts of
             [minutes, seconds] \<Rightarrow> Some (minutes * 60 + seconds)
           | [hours, minutes, seconds] \<Rightarrow> Some (hours * 3600 + minutes * 60 + seconds)
           | _ \<Rightarrow> None))"

definition time_to_seconds_to_timestamp :: "number \<Rightarrow> string" where
  "time_to_seconds_to_timestamp seconds =
     (let minutes = int_floordiv60 seconds;
          remaining_seconds = int_mod60 seconds
      in format_02d minutes @ '':'' @ format_02d remaining_seconds)"

section \<open>The timestamp source reader\<close>

text \<open>
  The file is given by what \<^verbatim>\<open>open\<close> and \<^verbatim>\<open>readlines\<close> deliver: \<open>None\<close> when either
  raises (missing file, permission), otherwise the text of the file, newlines translated
  to LF as text mode does.
\<close>

fun readlines_from :: "string \<Rightarrow> string \<Rightarrow> string list" where
  "readlines_from cur [] = (if cur = [] then [] else [cur])"
| "readlines_from cur (c # cs) =
     (if c = CHR 0x0A then (cur @ [c]) # readlines_from [] cs
      else readlines_from (cur @ [c]) cs)"

definition readlines :: "string \<Rightarrow> string list" where
  \<comment> \<open>\<^verbatim>\<open>file.readlines()\<close>: the lines, each with its line terminator.\<close>
  "readlines text = readlines_from [] text"

fun read_lines :: "string list \<Rightarrow> (string \<times> string) list \<Rightarrow> (string \<times> string) list option" where
  \<comment> \<open>The \<^verbatim>\<open>for line in lines\<close> loop with its list \<^verbatim>\<open>timestamps\<close>; \<open>None\<close> is the
      \<^verbatim>\<open>ValueError\<close> of unpacking \<^verbatim>\<open>start, end = ...\<close> from a list that has not
      exactly two elements.\<close>
  "read_lines [] timestamps = Some timestamps"
| "read_lines (line # lines) timestamps =
     (if CHR ''-'' \<in> set line then
        (case str_split CHR ''-'' (strip line) of
           [start, end] \<Rightarrow> read_lines lines (timestamps @ [(strip start, strip end)])
         | _ \<Rightarrow> None)
      else read_lines lines timestamps)"

definition read_timestamps :: "string option \<Rightarrow> (string \<times> string) list" where
  \<comment> \<open>\<^verbatim>\<open>read_timestamps\<close>: every exception raised in the \<^verbatim>\<open>try\<close> block is caught by
      \<^verbatim>\<open>except Exception\<close>, which returns the empty list.\<close>
  "read_timestamps file =
     (case file of
        None \<Rightarrow> []
      | Some text \<Rightarrow>
          (case read_lines (readlines text) [] of
             None \<Rightarrow> []
           | Some timestamps \<Rightarrow> timestamps))"

section \<open>The validator loop of the main block\<close>

definition get_video_duration :: "rat option \<Rightarrow> number" where
  \<comment> \<open>\<^verbatim>\<open>get_video_duration\<close>; the argument is the outcome of the probe
      \<^verbatim>\<open>VideoFileClip(video_path).duration\<close>, \<open>None\<close> when it raises.\<close>
  "get_video_duration probe = (case probe of Some duration \<Rightarrow> PyFloat duration | None \<Rightarrow> PyInt 0)"

fun adjust_timestamps ::
  "number \<Rightarrow> (string \<times> string) list \<Rightarrow> (string \<times> string) list \<Rightarrow> (string \<times> string) list" where
  \<comment> \<open>The loop \<^verbatim>\<open>for start, end in timestamps\<close> of the main block, with its list
      \<^verbatim>\<open>adjusted_timestamps\<close>.\<close>
  "adjust_timestamps video_duration [] adjusted = adjusted"
| "adjust_timestamps video_duration ((start, end) # rest) adjusted =
     (case (time_to_seconds start, time_to_seconds end) of
        (Some start_sec, Some end_sec) \<Rightarrow>
          if value_of video_duration \<le> of_int start_sec then
            adjust_timestamps video_duration rest adjusted
          else if value_of video_duration < of_int end_sec then
            adjust_timestamps video_duration rest
              (adjusted @ [(start, time_to_seconds_to_timestamp video_duration)])
          else adjust_timestamps video_duration rest (adjusted @ [(start, end)])
      | _ \<Rightarrow> adjust_timestamps video_duration rest adjusted)"

definition adjusted_timestamps :: "number \<Rightarrow> (string \<times> string) list \<Rightarrow> (string \<times> string) list" where
  "adjusted_timestamps video_duration timestamps = adjust_timestamps video_duration timestamps []"

text \<open>
  The validator as the specification words it (section 4.3, steps 1 to 4), one pair at a
  time: \<open>None\<close> when the pair is dropped.
\<close>

definition validator_rule :: "number \<Rightarrow> string \<times> string \<Rightarrow> (string \<times> string) option" where
  "validator_rule duration pair =
     (case time_to_seconds (fst pair) of
        None \<Rightarrow> None
      | Some start_seconds \<Rightarrow>
          (case time_to_seconds (snd pair) of
             None \<Rightarrow> None
           | Some end_seconds \<Rightarrow>
               if of_int start_seconds \<ge> value_of duration then None
               else if of_int end_seconds > value_of duration then
                 Some (fst pair, time_to_seconds_to_timestamp duration)
               else Some pair))"

text \<open>
  The zero-padded two-digit field of section 8 of the specification, for a value below
  100, written out digit by digit.
\<close>

definition zero_padded :: "nat \<Rightarrow> string" where
  "zero_padded k = [digit_char (k div 10), digit_char (k mod 10)]"

section \<open>The clip extractor\<close>

text \<open>
  The file system is explicit state: the directories that exist, and the regular files
  with their sizes. \<^verbatim>\<open>os.remove\<close> of an existing file deletes it (a deletion that fails for
  a file that exists is not modelled); of a missing file it raises and changes nothing.
  Creating a directory does not fail.
\<close>

record filesystem =
  dirs :: "string set"
  files :: "string \<rightharpoonup> nat"

definition exists :: "filesystem \<Rightarrow> string \<Rightarrow> bool" where
  \<comment> \<open>\<^verbatim>\<open>os.path.exists\<close>\<close>
  "exists fs path = (path \<in> dirs fs \<or> files fs path \<noteq> None)"

definition makedirs :: "filesystem \<Rightarrow> string \<Rightarrow> filesystem" where
  "makedirs fs path = fs\<lparr>dirs := insert path (dirs fs)\<rparr>"

definition write_file :: "filesystem \<Rightarrow> string \<Rightarrow> nat \<Rightarrow> filesystem" where
  "write_file fs path n = fs\<lparr>files := (files fs)(path \<mapsto> n)\<rparr>"

definition remove :: "filesystem \<Rightarrow> string \<Rightarrow> filesystem" where
  \<comment> \<open>\<^verbatim>\<open>os.remove\<close>, as far as the state goes.\<close>
  "remove fs path = fs\<lparr>files := (files fs)(path := None)\<rparr>"

definition path_join :: "string \<Rightarrow> string \<Rightarrow> string" where
  \<comment> \<open>\<^verbatim>\<open>os.path.join\<close> of two components (POSIX).\<close>
  "path_join a b =
     (if b \<noteq> [] \<and> hd b = CHR ''/'' then b
      else if a = [] \<or> last a = CHR ''/'' then a @ b
      else a @ ''/'' @ b)"

text \<open>
  The external media toolchain is a black box. What it does for one clip is given by a
  record of outcomes: whether \<^verbatim>\<open>ffmpeg_extract_subclip\<close> raised and the size of the file it
  left at the temporary path (\<open>None\<close>: it left the path as it was); the duration the two
  \<^verbatim>\<open>VideoFileClip(temp_output_path)\<close> calls report (\<open>None\<close>: the call raised); whether
  resizing, cropping or \<^verbatim>\<open>write_videofile\<close> raised, and the size of the file left at the
  final path.
\<close>

record toolchain =
  extract_raises :: bool
  extract_writes :: "nat option"
  test_duration :: "rat option"
  clip_duration :: "rat option"
  encode_raises :: bool
  encode_writes :: "nat option"

datatype exit_path =
  InvalidTimestamps | ExtractionFailed | ZeroSize | ZeroDuration | SaveFailed | Saved

definition temp_output_path :: "string \<Rightarrow> nat \<Rightarrow> string" where
  "temp_output_path output_folder idx =
     path_join output_folder (''temp_clip_'' @ str_nat (idx + 1) @ ''.mp4'')"

definition final_output_path :: "string \<Rightarrow> nat \<Rightarrow> string" where
  "final_output_path output_folder idx =
     path_join output_folder (''clip_'' @ str_nat (idx + 1) @ ''.mp4'')"

definition resize_and_save :: "toolchain \<Rightarrow> string \<Rightarrow> nat \<Rightarrow> filesystem \<Rightarrow> exit_path \<times> filesystem" where
  \<comment> \<open>The second \<^verbatim>\<open>try\<close> block of an iteration and the deletion that follows it. An
      exception in the block is caught and the deletion still runs; the
      zero-duration branch deletes the file itself and continues.\<close>
  "resize_and_save tool output_folder idx fs =
     (let temp = temp_output_path output_folder idx in
      case clip_duration tool of
        None \<Rightarrow> (SaveFailed, remove fs temp)
      | Some duration \<Rightarrow>
          if duration = 0 then (ZeroDuration, remove fs temp)
          else
            let fs' = (case encode_writes tool of
                         None \<Rightarrow> fs
                       | Some n \<Rightarrow> write_file fs (final_output_path output_folder idx) n)
            in if encode_raises tool then (SaveFailed, remove fs' temp)
               else (Saved, remove fs' temp))"

definition process_clip ::
  "toolchain \<Rightarrow> string \<Rightarrow> nat \<Rightarrow> string \<times> string \<Rightarrow> filesystem \<Rightarrow> exit_path \<times> filesystem" where
  \<comment> \<open>One iteration of the loop of \<^verbatim>\<open>extract_and_resize_clips\<close>: the path by
      which it ends, and the file system after it.\<close>
  "process_clip tool output_folder idx pair fs =
     (case (time_to_seconds (fst pair), time_to_seconds (snd pair)) of
        (Some start_sec, Some end_sec) \<Rightarrow>
          let temp = temp_output_path output_folder idx;
              fs' = (case extract_writes tool of
                       None \<Rightarrow> fs
                     | Some n \<Rightarrow> write_file fs temp n)
          in if extract_raises tool then (ExtractionFailed, fs')
             else
               (case files fs' temp of
                  None \<Rightarrow> (ExtractionFailed, fs')
                | Some temp_file_size \<Rightarrow>
                    if temp_file_size = 0 then (ZeroSize, fs')
                    else
                      (case test_duration tool of
                         None \<Rightarrow> (ExtractionFailed, fs')
                       | Some duration \<Rightarrow>
                           if duration = 0 then (ZeroDuration, remove fs' temp)
                           else resize_and_save tool output_folder idx fs'))
      | _ \<Rightarrow> (InvalidTimestamps, fs))"

fun process_clips ::
  "(nat \<Rightarrow> toolchain) \<Rightarrow> string \<Rightarrow> nat \<Rightarrow> (string \<times> string) list \<Rightarrow> filesystem \<Rightarrow> filesystem" where
  \<comment> \<open>\<^verbatim>\<open>for idx, (start, end) in enumerate(timestamps)\<close>, from index \<open>idx\<close> on.\<close>
  "process_clips tools output_folder idx [] fs = fs"
| "process_clips tools output_folder idx (pair # rest) fs =
     process_clips tools output_folder (idx + 1) rest
       (snd (process_clip (tools idx) output_folder idx pair fs))"

definition extract_and_resize_clips ::
  "(nat \<Rightarrow> toolchain) \<Rightarrow> (string \<times> string) list \<Rightarrow> string \<Rightarrow> filesystem \<Rightarrow> filesystem" where
  "extract_and_resize_clips tools timestamps output_folder fs =
     process_clips tools output_folder 0 timestamps
       (if exists fs output_folder then fs else makedirs fs output_folder)"

section \<open>The main block\<close>

definition video_path :: string where
  "video_path = ''video-processing/input_files/sample_video.mp4''"

definition timestamps_file :: string where
  "timestamps_file = ''video-processing/input_files/timestamps.txt''"

definition output_folder :: string where
  "output_folder = ''video-processing/output_videos''"

definition main ::
  "rat option \<Rightarrow> string option \<Rightarrow> (nat \<Rightarrow> toolchain) \<Rightarrow> filesystem \<Rightarrow> filesystem" where
  \<comment> \<open>The main block: \<open>probe\<close> is the outcome of the duration probe of the video,
      \<open>text\<close> what reading the timestamps file delivers, \<open>tools\<close> the outcomes of the
      toolchain for each clip index.\<close>
  "main probe text tools fs =
     (if \<not> exists fs video_path then fs
      else if \<not> exists fs timestamps_file then fs
      else
        let video_duration = get_video_duration probe;
            timestamps = read_timestamps text
        in extract_and_resize_clips tools
             (adjusted_timestamps video_duration timestamps) output_folder fs)"

section \<open>Auxiliary facts\<close>

lemma split_from_no_sep: "sep \<notin> set s \<Longrightarrow> split_from sep cur s = [cur @ s]"
  by (induction s arbitrary: cur) auto

lemma split_from_at_sep:
  "sep \<notin> set a \<Longrightarrow> split_from sep cur (a @ sep # b) = (cur @ a) # split_from sep [] b"
  by (induction a arbitrary: cur) auto

lemma split_from_parts:
  "p \<in> set (split_from sep cur s) \<Longrightarrow> set p \<subseteq> set cur \<union> set s"
proof (induction s arbitrary: cur)
  case Nil
  then show ?case by simp
next
  case (Cons c s)
  show ?case
  proof (cases "c = sep")
    case True
    then have "p = cur \<or> p \<in> set (split_from sep [] s)"
      using Cons.prems by simp
    then show ?thesis using Cons.IH [of "[]"] by auto
  next
    case False
    then have "p \<in> set (split_from sep (cur @ [c]) s)"
      using Cons.prems by simp
    then show ?thesis using Cons.IH [of "cur @ [c]"] by auto
  qed
qed

lemma str_split_parts: "p \<in> set (str_split sep s) \<Longrightarrow> set p \<subseteq> set s"
  using split_from_parts [of p sep "[]" s] by (simp add: str_split_def)

lemma digit_char_digit: "d < 10 \<Longrightarrow> is_digit (digit_char d)"
  by (simp add: is_digit_def digit_char_def)

lemma digit_char_val: "d < 10 \<Longrightarrow> digit_val (digit_char d) = d"
  by (simp add: digit_val_def digit_char_def)

lemma digit_char_0: "digit_char 0 = CHR ''0''"
proof -
  have "of_char CHR ''0'' = (48::nat)" by simp
  then have "char_of (48::nat) = CHR ''0''" by (metis char_of_char)
  then show ?thesis by (simp add: digit_char_def)
qed

lemma str_nat_digits: "list_all is_digit (str_nat n)"
proof (induction n rule: str_nat.induct)
  case (1 n)
  show ?case
  proof (cases "n < 10")
    case True
    then show ?thesis by (subst str_nat.simps) (simp add: digit_char_digit)
  next
    case False
    then have "list_all is_digit (str_nat (n div 10))" by (rule "1.IH")
    moreover have "is_digit (digit_char (n mod 10))" by (simp add: digit_char_digit)
    ultimately show ?thesis using False by (subst str_nat.simps) simp
  qed
qed

lemma str_nat_nonempty: "str_nat n \<noteq> []"
  by (subst str_nat.simps) simp

lemma digits_value_snoc:
  "list_all is_digit ds \<Longrightarrow> is_digit c \<Longrightarrow>
   digits_value acc (ds @ [c]) = map_option (\<lambda>v. v * 10 + digit_val c) (digits_value acc ds)"
  by (induction ds arbitrary: acc) simp_all

lemma digits_value_str_nat: "digits_value 0 (str_nat n) = Some n"
proof (induction n rule: str_nat.induct)
  case (1 n)
  show ?case
  proof (cases "n < 10")
    case True
    then show ?thesis by (subst str_nat.simps) (simp add: digit_char_digit digit_char_val)
  next
    case False
    have ih: "digits_value 0 (str_nat (n div 10)) = Some (n div 10)"
      using False by (rule "1.IH")
    have d: "is_digit (digit_char (n mod 10))" "digit_val (digit_char (n mod 10)) = n mod 10"
      by (simp_all add: digit_char_digit digit_char_val)
    have "digits_value 0 (str_nat (n div 10) @ [digit_char (n mod 10)]) = Some (n div 10 * 10 + n mod 10)"
      by (simp add: digits_value_snoc [OF str_nat_digits d(1)] ih d(2))
    then show ?thesis using False by (subst str_nat.simps) simp
  qed
qed

lemma unsigned_digits: "s \<noteq> [] \<Longrightarrow> list_all is_digit s \<Longrightarrow> unsigned s = digits_value 0 s"
  by (cases s) (simp_all add: unsigned_def)

lemma unsigned_str_nat: "unsigned (str_nat n) = Some n"
  by (simp add: unsigned_digits str_nat_nonempty str_nat_digits digits_value_str_nat)

lemma digit_not_space: "is_digit c \<Longrightarrow> \<not> int_space c"
  by (auto simp: is_digit_def int_space_def)

lemma int_strip_id:
  assumes "s \<noteq> []" "\<not> int_space (hd s)" "\<not> int_space (last s)"
  shows "int_strip s = s"
proof -
  have 1: "dropWhile int_space s = s"
    using assms(2) by (simp add: dropWhile_eq_self_iff)
  have 2: "dropWhile int_space (rev s) = rev s"
    using assms(3) by (simp add: dropWhile_eq_self_iff hd_rev)
  show ?thesis by (simp add: int_strip_def 1 2)
qed

lemma int_strip_digits:
  assumes "s \<noteq> []" "list_all is_digit s"
  shows "int_strip s = s"
proof (rule int_strip_id [OF assms(1)])
  have "hd s \<in> set s" "last s \<in> set s" using assms(1) by simp_all
  then have "is_digit (hd s)" "is_digit (last s)"
    using assms(2) by (simp_all add: list_all_iff)
  then show "\<not> int_space (hd s)" "\<not> int_space (last s)"
    by (simp_all add: digit_not_space)
qed

lemma digit_not_sign: "is_digit c \<Longrightarrow> c \<noteq> CHR ''-'' \<and> c \<noteq> CHR ''+'' \<and> c \<noteq> CHR '':''"
  by (auto simp: is_digit_def)

lemma py_int_digits:
  assumes "s \<noteq> []" "list_all is_digit s"
  shows "py_int s = map_option int (digits_value 0 s)"
proof -
  obtain c cs where s: "s = c # cs" using assms(1) by (cases s) auto
  have c: "is_digit c" using assms(2) s by simp
  have 1: "int_strip (c # cs) = c # cs"
    using int_strip_digits [OF assms] unfolding s .
  have "py_int (c # cs) = map_option int (unsigned (c # cs))"
    using digit_not_sign [OF c] by (simp add: py_int_def 1)
  then show ?thesis
    using unsigned_digits [OF assms] unfolding s by simp
qed

lemma is_digit_0: "is_digit CHR ''0''"
  by (simp add: is_digit_def)

lemma digit_val_0: "digit_val CHR ''0'' = 0"
  by (simp add: digit_val_def)

lemma py_int_format_02d: "py_int (format_02d v) = Some v"
proof -
  let ?ds = "str_nat (nat \<bar>v\<bar>)"
  have ds: "?ds \<noteq> []" "list_all is_digit ?ds"
    by (rule str_nat_nonempty, rule str_nat_digits)
  consider "v < 0" | "0 \<le> v" "v < 10" | "10 \<le> v" by linarith
  then show ?thesis
  proof cases
    case 1
    have "last ?ds \<in> set ?ds" using ds(1) by simp
    then have "is_digit (last ?ds)"
      using ds(2) by (simp add: list_all_iff)
    then have "\<not> int_space (last ?ds)" by (rule digit_not_space)
    then have "\<not> int_space (last (CHR ''-'' # ?ds))" using ds(1) by simp
    moreover have "\<not> int_space (hd (CHR ''-'' # ?ds))" by (simp add: int_space_def)
    ultimately have "int_strip (CHR ''-'' # ?ds) = CHR ''-'' # ?ds"
      by (intro int_strip_id) simp_all
    then have "py_int (CHR ''-'' # ?ds) = Some (- int (nat \<bar>v\<bar>))"
      by (simp add: py_int_def unsigned_str_nat)
    then show ?thesis using 1 by (simp add: format_02d_def)
  next
    case 2
    have "list_all is_digit (CHR ''0'' # ?ds)"
      using ds(2) by (simp add: is_digit_0)
    then have "py_int (CHR ''0'' # ?ds) = map_option int (digits_value 0 (CHR ''0'' # ?ds))"
      by (intro py_int_digits) simp_all
    then have "py_int (CHR ''0'' # ?ds) = Some (int (nat \<bar>v\<bar>))"
      by (simp add: is_digit_0 digit_val_0 digits_value_str_nat)
    then show ?thesis using 2 by (simp add: format_02d_def)
  next
    case 3
    have "py_int ?ds = map_option int (digits_value 0 ?ds)"
      by (intro py_int_digits ds)
    then show ?thesis using 3 by (simp add: format_02d_def digits_value_str_nat)
  qed
qed

lemma str_nat_no_colon: "CHR '':'' \<notin> set (str_nat n)"
  using str_nat_digits [of n] digit_not_sign by (auto simp: list_all_iff)

lemma format_02d_no_colon: "CHR '':'' \<notin> set (format_02d v)"
  by (simp add: format_02d_def str_nat_no_colon)

lemma time_to_seconds_two:
  assumes "CHR '':'' \<notin> set a" "CHR '':'' \<notin> set b" "py_int a = Some m" "py_int b = Some s"
  shows "time_to_seconds (a @ '':'' @ b) = Some (m * 60 + s)"
proof -
  have "str_split CHR '':'' (a @ CHR '':'' # b) = [a, b]"
    using assms(1,2) by (simp add: str_split_def split_from_at_sep split_from_no_sep)
  then show ?thesis by (simp add: time_to_seconds_def assms(3,4))
qed

lemma roundtrip: "time_to_seconds (time_to_seconds_to_timestamp (PyInt n)) = Some n"
proof -
  have "time_to_seconds (format_02d (n div 60) @ '':'' @ format_02d (n mod 60)) = Some (n div 60 * 60 + n mod 60)"
    by (intro time_to_seconds_two format_02d_no_colon py_int_format_02d)
  then show ?thesis by (simp add: time_to_seconds_to_timestamp_def)
qed

lemma format_02d_zero_padded: "k < 100 \<Longrightarrow> format_02d (int k) = zero_padded k"
proof -
  assume k: "k < 100"
  show ?thesis
  proof (cases "k < 10")
    case True
    then have "str_nat k = [digit_char k]" by (subst str_nat.simps) simp
    then show ?thesis using True by (simp add: format_02d_def zero_padded_def digit_char_0)
  next
    case False
    then have "k div 10 < 10" using k by simp
    then have "str_nat (k div 10) = [digit_char (k div 10)]" by (subst str_nat.simps) simp
    then have "str_nat k = [digit_char (k div 10), digit_char (k mod 10)]"
      using False by (subst str_nat.simps) simp
    then show ?thesis using False by (simp add: format_02d_def zero_padded_def)
  qed
qed

lemma int_strip_subset: "set (int_strip s) \<subseteq> set s"
proof -
  have "set (int_strip s) \<subseteq> set (dropWhile int_space s)"
    unfolding int_strip_def using set_dropWhileD [of _ int_space "rev (dropWhile int_space s)"] by auto
  also have "\<dots> \<subseteq> set s" using set_dropWhileD [of _ int_space s] by auto
  finally show ?thesis .
qed

lemma strip_subset: "set (strip s) \<subseteq> set s"
proof -
  have "set (strip s) \<subseteq> set (dropWhile isspace s)"
    unfolding strip_def using set_dropWhileD [of _ isspace "rev (dropWhile isspace s)"] by auto
  also have "\<dots> \<subseteq> set s" using set_dropWhileD [of _ isspace s] by auto
  finally show ?thesis .
qed

lemma py_int_nonneg:
  assumes "CHR ''-'' \<notin> set s" "py_int s = Some v"
  shows "0 \<le> v"
proof (cases "int_strip s")
  case Nil
  then show ?thesis using assms(2) by (simp add: py_int_def)
next
  case (Cons c cs)
  have "c \<in> set s" using int_strip_subset [of s] Cons by auto
  then have "c \<noteq> CHR ''-''" using assms(1) by auto
  then show ?thesis using assms(2) Cons by (auto simp: py_int_def split: if_splits)
qed

lemma those_map_Some:
  "those (map f xs) = Some ys \<Longrightarrow> y \<in> set ys \<Longrightarrow> \<exists>x\<in>set xs. f x = Some y"
  by (induction xs arbitrary: ys) (auto split: option.splits)

lemma time_to_seconds_nonneg:
  assumes "CHR ''-'' \<notin> set ts" "time_to_seconds ts = Some n"
  shows "0 \<le> n"
proof -
  obtain parts where parts: "those (map py_int (str_split CHR '':'' ts)) = Some parts"
    using assms(2) by (auto simp: time_to_seconds_def split: option.splits)
  have nonneg: "0 \<le> v" if v: "v \<in> set parts" for v
  proof -
    obtain p where p: "p \<in> set (str_split CHR '':'' ts)" "py_int p = Some v"
      using those_map_Some [OF parts v] by auto
    have "CHR ''-'' \<notin> set p" using str_split_parts [OF p(1)] assms(1) by auto
    then show ?thesis using p(2) by (rule py_int_nonneg)
  qed
  show ?thesis
    using assms(2) nonneg unfolding time_to_seconds_def parts
    by (auto split: list.splits)
qed

lemma adjust_step:
  "adjust_timestamps d (p # ps) acc =
     adjust_timestamps d ps (acc @ (case validator_rule d p of None \<Rightarrow> [] | Some q \<Rightarrow> [q]))"
  by (cases p) (simp add: validator_rule_def split: option.split)

lemma adjust_acc: "adjust_timestamps d ps acc = acc @ adjust_timestamps d ps []"
proof (induction ps arbitrary: acc)
  case Nil
  show ?case by simp
next
  case (Cons p ps)
  define X where "X = (case validator_rule d p of None \<Rightarrow> [] | Some q \<Rightarrow> [q])"
  have "adjust_timestamps d (p # ps) acc = adjust_timestamps d ps (acc @ X)"
    unfolding X_def by (rule adjust_step)
  also have "\<dots> = (acc @ X) @ adjust_timestamps d ps []"
    by (rule Cons.IH)
  also have "\<dots> = acc @ (X @ adjust_timestamps d ps [])"
    by simp
  also have "X @ adjust_timestamps d ps [] = adjust_timestamps d ps ([] @ X)"
    using Cons.IH [of X] by simp
  also have "adjust_timestamps d ps ([] @ X) = adjust_timestamps d (p # ps) []"
    unfolding X_def by (rule adjust_step [symmetric])
  finally show ?case .
qed

lemma adjusted_Cons:
  "adjusted_timestamps d (p # ps) =
     (case validator_rule d p of None \<Rightarrow> [] | Some q \<Rightarrow> [q]) @ adjusted_timestamps d ps"
  unfolding adjusted_timestamps_def
  by (subst adjust_step, subst adjust_acc) simp

lemma adjusted_Nil: "adjusted_timestamps d [] = []"
  by (simp add: adjusted_timestamps_def)

lemma adjusted_map_filter: "adjusted_timestamps d ps = List.map_filter (validator_rule d) ps"
  by (induction ps) (simp_all add: adjusted_Nil adjusted_Cons split: option.split)

lemma adjusted_append:
  "adjusted_timestamps d (xs @ ys) = adjusted_timestamps d xs @ adjusted_timestamps d ys"
  by (induction xs) (simp_all add: adjusted_Nil adjusted_Cons)

lemma validator_rule_Some:
  assumes "validator_rule d p = Some q"
  shows "fst q = fst p \<and> (snd q = snd p \<or> snd q = time_to_seconds_to_timestamp d)"
  using assms by (auto simp: validator_rule_def split: option.splits if_splits)

lemma validator_rule_zero:
  assumes "time_to_seconds (fst p) = Some n" and "0 \<le> n"
  shows "validator_rule (PyInt 0) p = None"
  using assms by (simp add: validator_rule_def split: option.split)

lemma validator_rule_zero_no_dash:
  assumes "CHR ''-'' \<notin> set (fst p)"
  shows "validator_rule (PyInt 0) p = None"
proof (cases "time_to_seconds (fst p)")
  case None
  then show ?thesis by (simp add: validator_rule_def)
next
  case (Some n)
  then have "0 \<le> n" using assms by (intro time_to_seconds_nonneg)
  with Some show ?thesis by (rule validator_rule_zero)
qed

lemma split_from_parts_no_sep:
  "sep \<notin> set cur \<Longrightarrow> p \<in> set (split_from sep cur s) \<Longrightarrow> sep \<notin> set p"
proof (induction s arbitrary: cur)
  case Nil
  then show ?case by simp
next
  case (Cons c s)
  show ?case
  proof (cases "c = sep")
    case True
    then have "p = cur \<or> p \<in> set (split_from sep [] s)"
      using Cons.prems(2) by simp
    then show ?thesis using Cons.IH [of "[]"] Cons.prems(1) by auto
  next
    case False
    then have "p \<in> set (split_from sep (cur @ [c]) s)"
      using Cons.prems(2) by simp
    moreover have "sep \<notin> set (cur @ [c])" using False Cons.prems(1) by auto
    ultimately show ?thesis by (rule Cons.IH [rotated])
  qed
qed

lemma str_split_parts_no_sep: "p \<in> set (str_split sep s) \<Longrightarrow> sep \<notin> set p"
  using split_from_parts_no_sep [of sep "[]" p s] by (simp add: str_split_def)

lemma strip_no_dash: "CHR ''-'' \<notin> set p \<Longrightarrow> CHR ''-'' \<notin> set (strip p)"
  using strip_subset [of p] by auto

lemma read_lines_no_dash:
  assumes "read_lines lines acc = Some ts"
    and "\<forall>q\<in>set acc. CHR ''-'' \<notin> set (fst q) \<and> CHR ''-'' \<notin> set (snd q)"
  shows "\<forall>q\<in>set ts. CHR ''-'' \<notin> set (fst q) \<and> CHR ''-'' \<notin> set (snd q)"
  using assms
proof (induction lines arbitrary: acc)
  case Nil
  then show ?case by simp
next
  case (Cons line lines)
  show ?case
  proof (cases "CHR ''-'' \<in> set line")
    case False
    then have "read_lines lines acc = Some ts" using Cons.prems(1) by simp
    then show ?thesis using Cons.prems(2) by (rule Cons.IH)
  next
    case True
    then obtain a b where ab: "str_split CHR ''-'' (strip line) = [a, b]"
      and rest: "read_lines lines (acc @ [(strip a, strip b)]) = Some ts"
      using Cons.prems(1) by (auto split: list.splits)
    have "a \<in> set (str_split CHR ''-'' (strip line))" "b \<in> set (str_split CHR ''-'' (strip line))"
      by (simp_all add: ab)
    then have "CHR ''-'' \<notin> set a" "CHR ''-'' \<notin> set b"
      by (simp_all add: str_split_parts_no_sep)
    then have "CHR ''-'' \<notin> set (strip a)" "CHR ''-'' \<notin> set (strip b)"
      by (simp_all add: strip_no_dash)
    then have "\<forall>q\<in>set (acc @ [(strip a, strip b)]).
        CHR ''-'' \<notin> set (fst q) \<and> CHR ''-'' \<notin> set (snd q)"
      using Cons.prems(2) by simp
    with rest show ?thesis by (rule Cons.IH)
  qed
qed

lemma read_timestamps_no_dash:
  assumes "q \<in> set (read_timestamps file)"
  shows "CHR ''-'' \<notin> set (fst q) \<and> CHR ''-'' \<notin> set (snd q)"
proof (cases "file")
  case None
  then show ?thesis using assms by (simp add: read_timestamps_def)
next
  case (Some content)
  show ?thesis
  proof (cases "read_lines (readlines content) []")
    case None
    then show ?thesis using assms Some by (simp add: read_timestamps_def)
  next
    case ts: (Some ts)
    then have "q \<in> set ts" using assms Some by (simp add: read_timestamps_def)
    then show ?thesis using read_lines_no_dash [OF ts] by simp
  qed
qed

lemma adjusted_zero_no_dash:
  assumes "\<forall>q\<in>set ps. CHR ''-'' \<notin> set (fst q)"
  shows "adjusted_timestamps (PyInt 0) ps = []"
  using assms by (induction ps) (simp_all add: adjusted_Nil adjusted_Cons validator_rule_zero_no_dash)

lemma extract_nothing: "files (extract_and_resize_clips tools [] folder fs) = files fs"
  by (simp add: extract_and_resize_clips_def makedirs_def)


section \<open>Properties of the time converter\<close>

text \<open>
  C4. A timestamp with exactly two components that \<^verbatim>\<open>int\<close> accepts converts to
  minutes * 60 + seconds, one with exactly three components to
  hours * 3600 + minutes * 60 + seconds; \<^verbatim>\<open>"1:30:00"\<close> converts to 5400 and \<^verbatim>\<open>"02:05"\<close>
  to 125.
\<close>

theorem time_to_seconds_components:
  "(str_split CHR '':'' ts = [a, b] \<and> py_int a = Some m \<and> py_int b = Some s
      \<longrightarrow> time_to_seconds ts = Some (m * 60 + s)) \<and>
   (str_split CHR '':'' ts = [a, b, c] \<and> py_int a = Some h \<and> py_int b = Some m \<and> py_int c = Some s
      \<longrightarrow> time_to_seconds ts = Some (h * 3600 + m * 60 + s)) \<and>
   time_to_seconds ''1:30:00'' = Some 5400 \<and>
   time_to_seconds ''02:05'' = Some 125"
proof (intro conjI impI)
  assume "str_split CHR '':'' ts = [a, b] \<and> py_int a = Some m \<and> py_int b = Some s"
  then show "time_to_seconds ts = Some (m * 60 + s)"
    by (simp add: time_to_seconds_def)
next
  assume "str_split CHR '':'' ts = [a, b, c] \<and> py_int a = Some h \<and> py_int b = Some m \<and> py_int c = Some s"
  then show "time_to_seconds ts = Some (h * 3600 + m * 60 + s)"
    by (simp add: time_to_seconds_def)
next
  show "time_to_seconds ''1:30:00'' = Some 5400" by code_simp
next
  show "time_to_seconds ''02:05'' = Some 125" by code_simp
qed

theorem time_to_seconds_components_witness:
  "str_split CHR '':'' ''07:45'' = [''07'', ''45''] \<and> py_int ''07'' = Some 7 \<and> py_int ''45'' = Some 45 \<and>
   time_to_seconds ''07:45'' = Some (7 * 60 + 45) \<and>
   str_split CHR '':'' ''2:07:45'' = [''2'', ''07'', ''45''] \<and> py_int ''2'' = Some 2 \<and>
   time_to_seconds ''2:07:45'' = Some (2 * 3600 + 7 * 60 + 45)"
proof -
  have 1: "str_split CHR '':'' ''07:45'' = [''07'', ''45'']" by code_simp
  have 2: "py_int ''07'' = Some 7" by code_simp
  have 3: "py_int ''45'' = Some 45" by code_simp
  have 4: "str_split CHR '':'' ''2:07:45'' = [''2'', ''07'', ''45'']" by code_simp
  have 5: "py_int ''2'' = Some 2" by code_simp
  have "time_to_seconds ''07:45'' = Some (7 * 60 + 45)"
    using time_to_seconds_components
      [where ts = "''07:45''" and a = "''07''" and b = "''45''" and m = 7 and s = 45] 1 2 3
    by blast
  moreover have "time_to_seconds ''2:07:45'' = Some (2 * 3600 + 7 * 60 + 45)"
    using time_to_seconds_components
      [where ts = "''2:07:45''" and a = "''2''" and b = "''07''" and c = "''45''"
         and h = 2 and m = 7 and s = 45] 4 5 2 3
    by blast
  ultimately show ?thesis using 1 2 3 4 5 by blast
qed

text \<open>
  C1, as the code has it. \<^verbatim>\<open>to_timestamp(125)\<close> is \<^verbatim>\<open>"02:05"\<close>, and
  \<^verbatim>\<open>to_timestamp(3725)\<close> is \<^verbatim>\<open>"62:05"\<close>, not \<^verbatim>\<open>"02:05"\<close>: the minutes field is the whole
  minute count \<open>n div 60\<close>, not reduced modulo 60, and the result has exactly the two
  fields \<open>n div 60\<close> and \<open>n mod 60\<close>.
\<close>

theorem to_timestamp_whole_minutes:
  "time_to_seconds_to_timestamp (PyInt 125) = ''02:05'' \<and>
   time_to_seconds_to_timestamp (PyInt 3725) = ''62:05'' \<and>
   (\<forall>n. map py_int (str_split CHR '':'' (time_to_seconds_to_timestamp (PyInt n))) =
          [Some (n div 60), Some (n mod 60)])"
proof (intro conjI allI)
  show "time_to_seconds_to_timestamp (PyInt 125) = ''02:05''" by code_simp
next
  show "time_to_seconds_to_timestamp (PyInt 3725) = ''62:05''" by code_simp
next
  fix n :: int
  have "str_split CHR '':'' (format_02d (n div 60) @ CHR '':'' # format_02d (n mod 60)) =
          [format_02d (n div 60), format_02d (n mod 60)]"
    by (simp add: str_split_def split_from_at_sep split_from_no_sep format_02d_no_colon)
  then show "map py_int (str_split CHR '':'' (time_to_seconds_to_timestamp (PyInt n))) =
          [Some (n div 60), Some (n mod 60)]"
    by (simp add: time_to_seconds_to_timestamp_def py_int_format_02d)
qed

theorem to_timestamp_3725_counterexample:
  "time_to_seconds_to_timestamp (PyInt 3725) \<noteq> ''02:05''"
  by code_simp

text \<open>
  C3. For \<open>m < 60\<close> and \<open>s < 60\<close>, converting the zero-padded string \<^verbatim>\<open>MM:SS\<close> to seconds
  and back gives the same string.
\<close>

theorem mm_ss_roundtrip:
  assumes "m < 60" and "s < 60"
  shows "map_option (\<lambda>seconds. time_to_seconds_to_timestamp (PyInt seconds))
           (time_to_seconds (zero_padded m @ '':'' @ zero_padded s)) =
         Some (zero_padded m @ '':'' @ zero_padded s)"
proof -
  have zm: "format_02d (int m) = zero_padded m" and zs: "format_02d (int s) = zero_padded s"
    using assms by (simp_all add: format_02d_zero_padded)
  have "time_to_seconds (format_02d (int m) @ '':'' @ format_02d (int s)) = Some (int m * 60 + int s)"
    by (intro time_to_seconds_two format_02d_no_colon py_int_format_02d)
  moreover have "(int m * 60 + int s) div 60 = int m" "(int m * 60 + int s) mod 60 = int s"
    using assms(2) by simp_all
  then have "time_to_seconds_to_timestamp (PyInt (int m * 60 + int s)) =
      format_02d (int m) @ '':'' @ format_02d (int s)"
    by (simp add: time_to_seconds_to_timestamp_def)
  ultimately show ?thesis by (simp add: zm zs)
qed

theorem mm_ss_roundtrip_witness:
  "(2::nat) < 60 \<and> (5::nat) < 60 \<and> zero_padded 2 @ '':'' @ zero_padded 5 = ''02:05'' \<and>
   map_option (\<lambda>seconds. time_to_seconds_to_timestamp (PyInt seconds))
     (time_to_seconds ''02:05'') = Some ''02:05''"
proof -
  have z: "zero_padded 2 @ '':'' @ zero_padded 5 = ''02:05''" by code_simp
  have "(2::nat) < 60" "(5::nat) < 60" by simp_all
  then show ?thesis using mm_ss_roundtrip [of 2 5] unfolding z by simp
qed

text \<open>
  C9. For every integer \<open>n \<ge> 0\<close>, \<^verbatim>\<open>to_seconds(to_timestamp(n))\<close> is \<open>n\<close>, also for
  \<open>n \<ge> 3600\<close>.
\<close>

theorem seconds_roundtrip:
  assumes "0 \<le> n"
  shows "time_to_seconds (time_to_seconds_to_timestamp (PyInt n)) = Some n"
  by (rule roundtrip)

theorem seconds_roundtrip_witness:
  "(0::int) \<le> 3725 \<and> time_to_seconds (time_to_seconds_to_timestamp (PyInt 3725)) = Some 3725"
proof -
  have "(0::int) \<le> 3725" by simp
  then show ?thesis using seconds_roundtrip [of 3725] by simp
qed


section \<open>Properties of the validator\<close>

text \<open>
  C2. The validator treats every pair of its input by the four rules of the
  specification (dropped when an endpoint does not convert; dropped when the start is at or
  beyond the duration; end replaced by \<^verbatim>\<open>to_timestamp(duration)\<close> when the end is beyond
  it; kept unchanged otherwise), in order. With duration 100.0 and the pairs
  \<^verbatim>\<open>("00:50","01:50")\<close>, \<^verbatim>\<open>("02:00","02:10")\<close> the output is exactly \<^verbatim>\<open>("00:50","01:40")\<close>.
\<close>

theorem validator_applies_rule:
  "adjusted_timestamps duration pairs = List.map_filter (validator_rule duration) pairs \<and>
   adjusted_timestamps (PyFloat 100) [(''00:50'', ''01:50''), (''02:00'', ''02:10'')] =
     [(''00:50'', ''01:40'')]"
proof
  show "adjusted_timestamps duration pairs = List.map_filter (validator_rule duration) pairs"
    by (rule adjusted_map_filter)
next
  show "adjusted_timestamps (PyFloat 100) [(''00:50'', ''01:50''), (''02:00'', ''02:10'')] =
     [(''00:50'', ''01:40'')]"
    by code_simp
qed

text \<open>
  C6. The output of the validator is an order-preserving subsequence of its input: it
  embeds into the input, position by position in order, each kept pair with the start
  field of the input pair it comes from and with that pair's end field or the clamp; so
  it is no longer than the input.
\<close>

theorem validator_output_subsequence:
  "list_emb (\<lambda>kept given. fst kept = fst given \<and>
               (snd kept = snd given \<or> snd kept = time_to_seconds_to_timestamp duration))
     (adjusted_timestamps duration pairs) pairs \<and>
   length (adjusted_timestamps duration pairs) \<le> length pairs \<and>
   subseq (map fst (adjusted_timestamps duration pairs)) (map fst pairs)"
proof -
  let ?P = "\<lambda>kept given. fst kept = fst given \<and>
               (snd kept = snd given \<or> snd kept = time_to_seconds_to_timestamp duration)"
  have emb: "list_emb ?P (adjusted_timestamps duration pairs) pairs"
  proof (induction pairs)
    case Nil
    show ?case by (simp add: adjusted_Nil)
  next
    case (Cons p ps)
    show ?case
    proof (cases "validator_rule duration p")
      case None
      then have "adjusted_timestamps duration (p # ps) = adjusted_timestamps duration ps"
        by (simp add: adjusted_Cons)
      then show ?thesis using Cons.IH by (simp add: list_emb_Cons)
    next
      case (Some q)
      then have "adjusted_timestamps duration (p # ps) = q # adjusted_timestamps duration ps"
        by (simp add: adjusted_Cons)
      moreover have "?P q p" using Some by (rule validator_rule_Some)
      ultimately show ?thesis using Cons.IH by (simp add: list_emb_Cons2)
    qed
  qed
  have len: "length (adjusted_timestamps duration pairs) \<le> length pairs"
    using emb by (rule list_emb_length)
  have "subseq (map fst (adjusted_timestamps duration pairs)) (map fst pairs)"
    using emb by (induction rule: list_emb.induct) auto
  with emb len show ?thesis by blast
qed


section \<open>Signs, and a failed duration probe\<close>

text \<open>
  C7, as the code has it. \<^verbatim>\<open>to_seconds("-1:00")\<close> is \<open>-60\<close>: \<^verbatim>\<open>int\<close> accepts a sign. A
  timestamp without the character \<^verbatim>\<open>-\<close> never converts to a negative value, and no
  timestamp that the reader produces contains \<^verbatim>\<open>-\<close>, since the reader splits its lines
  there.
\<close>

theorem seconds_nonneg_without_dash:
  "(CHR ''-'' \<notin> set ts \<and> time_to_seconds ts = Some n \<longrightarrow> 0 \<le> n) \<and>
   (q \<in> set (read_timestamps file) \<longrightarrow> CHR ''-'' \<notin> set (fst q) \<and> CHR ''-'' \<notin> set (snd q))"
  using time_to_seconds_nonneg [of ts n] read_timestamps_no_dash [of q "file"] by blast

theorem negative_seconds_counterexample:
  "time_to_seconds ''-1:00'' = Some (- 60) \<and> (- 60 :: int) < 0"
  by code_simp

theorem seconds_nonneg_without_dash_witness:
  "CHR ''-'' \<notin> set ''02:05'' \<and> time_to_seconds ''02:05'' = Some 125 \<and> (0::int) \<le> 125 \<and>
   (''00:10'', ''00:20'') \<in> set (read_timestamps (Some ''00:10-00:20\<newline>'')) \<and>
   CHR ''-'' \<notin> set (fst (''00:10'', ''00:20'')) \<and> CHR ''-'' \<notin> set (snd (''00:10'', ''00:20''))"
proof -
  have 1: "CHR ''-'' \<notin> set ''02:05''" by simp
  have 2: "time_to_seconds ''02:05'' = Some 125" by code_simp
  have 3: "read_timestamps (Some ''00:10-00:20\<newline>'') = [(''00:10'', ''00:20'')]" by code_simp
  then have 4: "(''00:10'', ''00:20'') \<in> set (read_timestamps (Some ''00:10-00:20\<newline>''))" by simp
  show ?thesis
    using seconds_nonneg_without_dash
      [of "''02:05''" 125 "(''00:10'', ''00:20'')" "Some ''00:10-00:20\<newline>''"] 1 2 4
    by blast
qed

text \<open>
  C10. When the duration probe fails \<^verbatim>\<open>get_video_duration\<close> returns 0. With that duration
  a pair whose start converts to a non-negative value contributes nothing to the output
  of the validator; the validator keeps no pair of any timestamps file, and the run
  changes no file: no clip is produced.
\<close>

theorem probe_failure_no_clips:
  assumes "time_to_seconds start = Some n" and "0 \<le> n"
  shows "get_video_duration None = PyInt 0 \<and>
     adjusted_timestamps (get_video_duration None) (before @ (start, finish) # after) =
       adjusted_timestamps (get_video_duration None) (before @ after) \<and>
     adjusted_timestamps (get_video_duration None) (read_timestamps file) = [] \<and>
     files (main None file tools fs) = files fs"
proof -
  have d: "get_video_duration None = PyInt 0"
    by (simp add: get_video_duration_def)
  have "validator_rule (PyInt 0) (start, finish) = None"
    using assms by (intro validator_rule_zero) simp_all
  then have drop: "adjusted_timestamps (PyInt 0) (before @ (start, finish) # after) =
       adjusted_timestamps (PyInt 0) (before @ after)"
    by (simp add: adjusted_append adjusted_Cons)
  have none: "adjusted_timestamps (PyInt 0) (read_timestamps file) = []"
    by (intro adjusted_zero_no_dash ballI) (simp add: read_timestamps_no_dash)
  have "files (main None file tools fs) = files fs"
    by (simp add: main_def d none extract_nothing)
  with drop none show ?thesis by (simp add: d)
qed

theorem probe_failure_no_clips_witness:
  "time_to_seconds ''00:10'' = Some 10 \<and> (0::int) \<le> 10 \<and>
   get_video_duration None = PyInt 0 \<and>
   adjusted_timestamps (get_video_duration None)
       ([(''-1:00'', ''00:05'')] @ (''00:10'', ''00:20'') # [(''00:30'', ''00:40'')]) =
     adjusted_timestamps (get_video_duration None)
       ([(''-1:00'', ''00:05'')] @ [(''00:30'', ''00:40'')]) \<and>
   adjusted_timestamps (get_video_duration None)
       (read_timestamps (Some ''00:10-00:20\<newline>00:30-00:40\<newline>'')) = [] \<and>
   files (main None (Some ''00:10-00:20\<newline>00:30-00:40\<newline>'')
            (\<lambda>idx. \<lparr>extract_raises = False, extract_writes = Some 1000,
                     test_duration = Some 10, clip_duration = Some 10,
                     encode_raises = False, encode_writes = Some 2000\<rparr>)
            \<lparr>dirs = {}, files = [video_path \<mapsto> 5000, timestamps_file \<mapsto> 24]\<rparr>) =
     files \<lparr>dirs = {}, files = [video_path \<mapsto> 5000, timestamps_file \<mapsto> 24]\<rparr>"
proof -
  have 1: "time_to_seconds ''00:10'' = Some 10" by code_simp
  have 2: "(0::int) \<le> 10" by simp
  show ?thesis
    using probe_failure_no_clips [OF 1 2, of "[(''-1:00'', ''00:05'')]" "''00:20''"
        "[(''00:30'', ''00:40'')]" "Some ''00:10-00:20\<newline>00:30-00:40\<newline>''"
        "\<lambda>idx. \<lparr>extract_raises = False, extract_writes = Some 1000,
                     test_duration = Some 10, clip_duration = Some 10,
                     encode_raises = False, encode_writes = Some 2000\<rparr>"
        "\<lparr>dirs = {}, files = [video_path \<mapsto> 5000, timestamps_file \<mapsto> 24]\<rparr>"] 1 2
    by blast
qed

section \<open>Where the code leaves what the specification asks\<close>

text \<open>
  C5. A line with more than one \<^verbatim>\<open>-\<close> is not skipped: unpacking its three fields raises
  inside the \<^verbatim>\<open>try\<close> block, and the reader returns the empty list, losing the pairs of
  the other lines. A line without \<^verbatim>\<open>-\<close> is skipped as the specification says.
\<close>

theorem read_timestamps_second_dash:
  "read_timestamps (Some ''00:10-00:20\<newline>00:25-00:30-00:35\<newline>00:30-00:40\<newline>'') = [] \<and>
   read_timestamps (Some ''00:10-00:20\<newline>garbage\<newline>00:30-00:40\<newline>'') =
     [(''00:10'', ''00:20''), (''00:30'', ''00:40'')]"
  by code_simp

text \<open>
  C8. The temporary file outlives the iteration on two of its exit paths. When the
  extraction leaves a file of size zero the iteration ends with the file still there, and
  so it does when the extraction raises after leaving a partial file.
\<close>

theorem temp_file_outlives_iteration:
  "fst (process_clip
          \<lparr>extract_raises = False, extract_writes = Some 0, test_duration = None,
           clip_duration = None, encode_raises = False, encode_writes = None\<rparr>
          ''video-processing/output_videos'' 0 (''00:10'', ''00:20'')
          \<lparr>dirs = {''video-processing/output_videos''}, files = Map.empty\<rparr>) = ZeroSize \<and>
   files (snd (process_clip
          \<lparr>extract_raises = False, extract_writes = Some 0, test_duration = None,
           clip_duration = None, encode_raises = False, encode_writes = None\<rparr>
          ''video-processing/output_videos'' 0 (''00:10'', ''00:20'')
          \<lparr>dirs = {''video-processing/output_videos''}, files = Map.empty\<rparr>))
     ''video-processing/output_videos/temp_clip_1.mp4'' = Some 0 \<and>
   fst (process_clip
          \<lparr>extract_raises = True, extract_writes = Some 48, test_duration = None,
           clip_duration = None, encode_raises = False, encode_writes = None\<rparr>
          ''video-processing/output_videos'' 0 (''00:10'', ''00:20'')
          \<lparr>dirs = {''video-processing/output_videos''}, files = Map.empty\<rparr>) = ExtractionFailed \<and>
   files (snd (process_clip
          \<lparr>extract_raises = True, extract_writes = Some 48, test_duration = None,
           clip_duration = None, encode_raises = False, encode_writes = None\<rparr>
          ''video-processing/output_videos'' 0 (''00:10'', ''00:20'')
          \<lparr>dirs = {''video-processing/output_videos''}, files = Map.empty\<rparr>))
     ''video-processing/output_videos/temp_clip_1.mp4'' = Some 48"
  by code_simp

text \<open>
  On the other exit paths after extraction (zero duration, a failure of the resize or
  encode stage, success) the temporary file is gone when the iteration ends.
\<close>

lemma temp_file_removed:
  assumes "fst (process_clip tool folder idx pair fs) \<in> {ZeroDuration, SaveFailed, Saved}"
  shows "files (snd (process_clip tool folder idx pair fs)) (temp_output_path folder idx) = None"
  using assms
  by (auto simp: process_clip_def resize_and_save_def remove_def Let_def
      split: option.splits if_splits prod.splits)


end
